theory Spec2Isabelle
  imports
    Complex_Main
    "HOL-Library.AList"
    "HOL-Library.Char_ord"
    "HOL-Library.List_Lexorder"
begin

section \<open>Conventions of the embedding\<close>

text \<open>
  The Python sources are \<^verbatim>\<open>feature_extractor.py\<close>, \<^verbatim>\<open>rules_engine.py\<close> and
  \<^verbatim>\<open>ml_detection.py\<close>; the packet dictionary they consume is built in
  \<^verbatim>\<open>packet_capture.py\<close>.

  \<^item> A \<^verbatim>\<open>datetime\<close> is the number of microseconds on its (naive) time line, an
    \<open>int\<close>; a \<^verbatim>\<open>timedelta\<close> is a difference of two of them and
    \<^verbatim>\<open>total_seconds()\<close> divides it by \<open>10\<^sup>6\<close>.
  \<^item> Python floats are read as real numbers: rounding is not modelled.
  \<^item> The packet dictionary always has its six keys (\<^verbatim>\<open>packet_capture.py\<close>, lines 46
    to 53); a key bound to \<^verbatim>\<open>None\<close> is \<open>None\<close>. In a rule a key can be missing, and
    the code tests for that: each key of a rule is \<open>Absent\<close> or \<open>Bound\<close> to its value.
  \<^item> A \<^verbatim>\<open>dict\<close> whose iteration order matters is an association list in insertion
    order, updated in place (\<open>AList.update\<close>) and deleted from (\<open>AList.delete\<close>).
  \<^item> An exception is a value of \<open>error\<close> on the left of a sum.
  \<^item> What the libraries compute (regular expressions, scikit-learn) is a parameter of
    the function that calls them; \<open>None\<close> from such a parameter means the call raised.
\<close>

datatype error = TypeError | ValueError

type_synonym datetime = int

definition total_seconds :: "int \<Rightarrow> real" where
  "total_seconds delta = real_of_int delta / 1000000"

section \<open>Packet events (\<^verbatim>\<open>PacketCapture._extract_basic_features\<close>)\<close>

text \<open>
  \<open>scapy_packet\<close> is the view of the captured packet that the rule engine reads:
  \<open>raw_load\<close> is the bytes of its \<^verbatim>\<open>Raw\<close> layer, \<open>None\<close> when
  \<^verbatim>\<open>haslayer('Raw')\<close> is false. A packet object counts as true in a condition, so
  \<^verbatim>\<open>not raw_packet\<close> holds exactly when the dictionary has none. \<open>timestamp\<close> is
  the instant that the ISO string written by the capture stage denotes
  (\<^verbatim>\<open>datetime.now().isoformat()\<close>, which \<^verbatim>\<open>fromisoformat\<close> reads back), and
  \<open>pkt_length\<close> is \<^verbatim>\<open>len(packet)\<close>.
\<close>

record scapy_packet =
  raw_load :: "string option"

record packet_info =
  timestamp :: datetime
  src_ip :: "string option"
  dst_ip :: "string option"
  protocol :: "int option"
  pkt_length :: int
  raw_packet :: "scapy_packet option"

section \<open>Flow tracking (\<^verbatim>\<open>FeatureExtractor\<close>)\<close>

record flow_stats =
  packet_count :: int
  byte_count :: int
  start_time :: "datetime option"
  last_time :: "datetime option"
  intervals :: "real list"
  packet_sizes :: "int list"

type_synonym flow_table = "(string \<times> flow_stats) list"

text \<open>The factory of the \<^verbatim>\<open>defaultdict\<close>.\<close>

definition default_flow :: flow_stats where
  "default_flow =
     \<lparr>packet_count = 0, byte_count = 0, start_time = None, last_time = None,
      intervals = [], packet_sizes = []\<rparr>"

subsection \<open>Rendering an integer in an f-string\<close>

definition digit_char :: "nat \<Rightarrow> char" where
  "digit_char d = char_of (48 + d)"

function str_nat :: "nat \<Rightarrow> string" where
  "str_nat n = (if n < 10 then [digit_char n] else str_nat (n div 10) @ [digit_char (n mod 10)])"
  by pat_completeness auto
termination
  by (relation "measure (\<lambda>n. n)") auto

declare str_nat.simps [simp del]

definition str_int :: "int \<Rightarrow> string" where
  "str_int i = (if i < 0 then CHR ''-'' # str_nat (nat (- i)) else str_nat (nat i))"

subsection \<open>The flow key (lines 49 to 53)\<close>

text \<open>
  \<^verbatim>\<open>ips = sorted([src_ip, dst_ip]); protocol = packet_info['protocol'] or 0;
  flow_key = f"{ips[0]}_{ips[1]}_{protocol}"\<close>.
  Strings are compared as Python compares them: lexicographically, character by character.
\<close>

definition flow_key :: "string \<Rightarrow> string \<Rightarrow> int option \<Rightarrow> string" where
  "flow_key src dst proto =
     (let ips = sort [src, dst];
          protocol = (case proto of None \<Rightarrow> 0 | Some p \<Rightarrow> if p \<noteq> 0 then p else 0)
      in ips ! 0 @ ''_'' @ ips ! 1 @ ''_'' @ str_int protocol)"

text \<open>
  The key under which a packet is filed: none when the guard
  \<^verbatim>\<open>if packet_info['src_ip'] and packet_info['dst_ip']\<close> fails (an address that is
  \<^verbatim>\<open>None\<close> or empty).
\<close>

definition packet_flow_key :: "packet_info \<Rightarrow> string option" where
  "packet_flow_key p =
     (case (src_ip p, dst_ip p) of
        (Some src, Some dst) \<Rightarrow>
          if src \<noteq> [] \<and> dst \<noteq> [] then Some (flow_key src dst (protocol p)) else None
      | _ \<Rightarrow> None)"

subsection \<open>\<^verbatim>\<open>_update_flow_stats\<close>\<close>

text \<open>
  Lines 59 to 68 on one flow record. Subtracting from a \<^verbatim>\<open>last_time\<close> that is
  \<^verbatim>\<open>None\<close> raises before anything is written.
\<close>

definition update_flow :: "packet_info \<Rightarrow> flow_stats \<Rightarrow> error + flow_stats" where
  "update_flow p flow =
     (let count = (\<lambda>f. f\<lparr>packet_count := packet_count f + 1,
                          byte_count := byte_count f + pkt_length p,
                          last_time := Some (timestamp p),
                          packet_sizes := packet_sizes f @ [pkt_length p]\<rparr>)
      in case start_time flow of
           None \<Rightarrow> Inr (count (flow\<lparr>start_time := Some (timestamp p)\<rparr>))
         | Some _ \<Rightarrow>
             (case last_time flow of
                None \<Rightarrow> Inl TypeError
              | Some lt \<Rightarrow>
                  Inr (count (flow\<lparr>intervals :=
                         intervals flow @ [total_seconds (timestamp p - lt)]\<rparr>))))"

text \<open>
  \<^verbatim>\<open>self.flow_stats[flow_key]\<close> makes the record of a new key from the factory, at the
  end of the dictionary; the record is then changed in place.
\<close>

definition update_flow_stats :: "packet_info \<Rightarrow> flow_table \<Rightarrow> error + flow_table" where
  "update_flow_stats p tbl =
     (case packet_flow_key p of
        None \<Rightarrow> Inr tbl
      | Some k \<Rightarrow>
          (let flow = (case map_of tbl k of None \<Rightarrow> default_flow | Some f \<Rightarrow> f)
           in case update_flow p flow of
                Inl e \<Rightarrow> Inl e
              | Inr flow' \<Rightarrow> Inr (AList.update k flow' tbl)))"

subsection \<open>The feature vector and the numpy statistics\<close>

text \<open>
  \<open>fv_timestamp\<close> is the instant whose ISO rendering the source stores under
  \<^verbatim>\<open>'timestamp'\<close>.
\<close>

record features =
  fv_flow_key :: string
  fv_timestamp :: datetime
  fv_packet_count :: int
  fv_byte_count :: int
  duration :: real
  packets_per_second :: real
  bytes_per_second :: real
  mean_packet_size :: real
  std_packet_size :: real
  min_packet_size :: int
  max_packet_size :: int
  mean_interval :: real
  std_interval :: real

definition np_mean :: "real list \<Rightarrow> real" where
  "np_mean xs = sum_list xs / real (length xs)"

text \<open>The population standard deviation (denominator \<open>N\<close>).\<close>

definition np_std :: "real list \<Rightarrow> real" where
  "np_std xs = sqrt (np_mean (map (\<lambda>x. (x - np_mean xs)\<^sup>2) xs))"

text \<open>\<^verbatim>\<open>np.min\<close> and \<^verbatim>\<open>np.max\<close> raise \<^verbatim>\<open>ValueError\<close> on an empty array.\<close>

definition np_min :: "int list \<Rightarrow> error + int" where
  "np_min xs = (case xs of [] \<Rightarrow> Inl ValueError | x # rest \<Rightarrow> Inr (fold min rest x))"

definition np_max :: "int list \<Rightarrow> error + int" where
  "np_max xs = (case xs of [] \<Rightarrow> Inl ValueError | x # rest \<Rightarrow> Inr (fold max rest x))"

subsection \<open>\<^verbatim>\<open>_extract_flow_features\<close>\<close>

text \<open>
  \<open>Inr None\<close> is the \<^verbatim>\<open>return None\<close> of line 98. The subtraction of line 110 raises
  \<^verbatim>\<open>TypeError\<close> when a time is \<^verbatim>\<open>None\<close>; the dictionary of lines 119 to 133 raises
  \<^verbatim>\<open>ValueError\<close> when there is no packet size.
\<close>

definition extract_flow_features :: "string \<Rightarrow> flow_stats \<Rightarrow> error + features option" where
  "extract_flow_features k stats =
     (if packet_count stats < 2 then Inr None
      else
        let sizes = map real_of_int (packet_sizes stats);
            mean_iv = (if length (intervals stats) > 0 then np_mean (intervals stats) else 0);
            std_iv = (if length (intervals stats) > 0 then np_std (intervals stats) else 0)
        in case (last_time stats, start_time stats) of
             (Some lt, Some st) \<Rightarrow>
               (let dur = total_seconds (lt - st);
                    pps = (if dur > 0 then real_of_int (packet_count stats) / dur else 0);
                    bps = (if dur > 0 then real_of_int (byte_count stats) / dur else 0)
                in case (np_min (packet_sizes stats), np_max (packet_sizes stats)) of
                     (Inr mn, Inr mx) \<Rightarrow>
                       Inr (Some \<lparr>fv_flow_key = k, fv_timestamp = lt,
                                  fv_packet_count = packet_count stats,
                                  fv_byte_count = byte_count stats,
                                  duration = dur,
                                  packets_per_second = pps,
                                  bytes_per_second = bps,
                                  mean_packet_size = np_mean sizes,
                                  std_packet_size = np_std sizes,
                                  min_packet_size = mn,
                                  max_packet_size = mx,
                                  mean_interval = mean_iv,
                                  std_interval = std_iv\<rparr>)
                   | _ \<Rightarrow> Inl ValueError)
           | _ \<Rightarrow> Inl TypeError)"

subsection \<open>\<^verbatim>\<open>_generate_features\<close>\<close>

text \<open>
  The loop of lines 75 to 90 over the snapshot \<^verbatim>\<open>list(self.flow_stats.items())\<close>,
  with the batch built so far and the live table. \<open>w\<close> is \<^verbatim>\<open>self.window_size\<close> and
  \<open>now\<close> the clock reading of line 72. An exception leaves the loop with the table as
  it is at that moment.
\<close>

fun generate_loop ::
  "real \<Rightarrow> datetime \<Rightarrow> (string \<times> flow_stats) list \<Rightarrow> features list \<Rightarrow> flow_table
     \<Rightarrow> (error + features list) \<times> flow_table" where
  "generate_loop w now [] batch tbl = (Inr batch, tbl)"
| "generate_loop w now ((k, stats) # items) batch tbl =
     (case last_time stats of
        None \<Rightarrow> generate_loop w now items batch tbl
      | Some lt \<Rightarrow>
          if packet_count stats < 5 then generate_loop w now items batch tbl
          else if total_seconds (now - lt) > w then
            (case extract_flow_features k stats of
               Inl e \<Rightarrow> (Inl e, tbl)
             | Inr None \<Rightarrow> generate_loop w now items batch (AList.delete k tbl)
             | Inr (Some f) \<Rightarrow> generate_loop w now items (batch @ [f]) (AList.delete k tbl))
          else generate_loop w now items batch tbl)"

text \<open>
  The result is what is put on the feature queue (nothing for an empty batch) and the
  flow table afterwards.
\<close>

definition generate_features ::
  "real \<Rightarrow> datetime \<Rightarrow> flow_table \<Rightarrow> (error + features list option) \<times> flow_table" where
  "generate_features w now tbl =
     (case generate_loop w now tbl [] tbl of
        (Inl e, tbl') \<Rightarrow> (Inl e, tbl')
      | (Inr batch, tbl') \<Rightarrow> (Inr (if batch = [] then None else Some batch), tbl'))"

subsection \<open>Sequences of ingestions and drains\<close>

text \<open>
  The worker of \<^verbatim>\<open>_process_queue\<close> calls \<^verbatim>\<open>_update_flow_stats\<close> and then
  \<^verbatim>\<open>_generate_features\<close> for each packet, catches every exception and goes on
  with the table as the failed call left it. \<open>run\<close> follows any sequence of the two
  calls from a table and collects the batches put on the feature queue.
\<close>

datatype op = Ingest packet_info | Drain datetime

fun apply_op :: "real \<Rightarrow> op \<Rightarrow> flow_table \<Rightarrow> features list option \<times> flow_table" where
  "apply_op w (Ingest p) tbl =
     (case update_flow_stats p tbl of Inl e \<Rightarrow> (None, tbl) | Inr tbl' \<Rightarrow> (None, tbl'))"
| "apply_op w (Drain now) tbl =
     (case generate_features w now tbl of
        (Inl e, tbl') \<Rightarrow> (None, tbl')
      | (Inr out, tbl') \<Rightarrow> (out, tbl'))"

fun run :: "real \<Rightarrow> op list \<Rightarrow> flow_table \<Rightarrow> features list list \<times> flow_table" where
  "run w [] tbl = ([], tbl)"
| "run w (x # xs) tbl =
     (case apply_op w x tbl of
        (out, tbl') \<Rightarrow>
          (case run w xs tbl' of
             (outs, tbl'') \<Rightarrow> ((case out of None \<Rightarrow> outs | Some b \<Rightarrow> b # outs), tbl'')))"

section \<open>Signature rules (\<^verbatim>\<open>RulesEngine\<close>)\<close>

text \<open>
  A rule is a mapping of the YAML file. \<^verbatim>\<open>'key' in rule\<close> is \<open>key r \<noteq> Absent\<close>, and
  \<^verbatim>\<open>rule['key']\<close> is the value that the key is bound to, \<open>None\<close> for YAML's null. For
  an address, a protocol or a pattern, \<open>None\<close> also stands for a value of another type,
  which is unequal to every address or protocol number and which \<^verbatim>\<open>re.compile\<close>
  rejects, as null is; a number stands for the integer that it equals. \<open>'p\<close> is the type
  of compiled patterns; a \<^verbatim>\<open>compiled_pattern\<close> bound to \<open>None\<close> is one that came with
  the file and has no \<^verbatim>\<open>search\<close>.
\<close>

datatype 'a entry = Absent | Bound 'a

record 'p rule =
  rule_id :: "string option entry"
  rule_description :: "string option entry"
  rule_confidence :: "real option entry"
  rule_src_ip :: "string option entry"
  rule_dst_ip :: "string option entry"
  rule_protocol :: "int option entry"
  pattern :: "string option entry"
  compiled_pattern :: "'p option entry"

text \<open>\<^verbatim>\<open>rule.get(key, default)\<close>.\<close>

definition dict_get :: "'a option entry \<Rightarrow> 'a \<Rightarrow> 'a option" where
  "dict_get e d = (case e of Absent \<Rightarrow> Some d | Bound v \<Rightarrow> v)"

datatype alert_kind = SIGNATURE | ANOMALY

record signature_alert =
  sa_timestamp :: datetime
  sa_rule_id :: "string option"
  sa_alert_type :: alert_kind
  sa_confidence :: "real option"
  sa_description :: "string option"
  sa_src_ip :: "string option"
  sa_dst_ip :: "string option"
  sa_protocol :: "int option"

text \<open>Python's truth value of an optional string and of an optional integer.\<close>

definition truthy_str :: "string option \<Rightarrow> bool" where
  "truthy_str s = (case s of None \<Rightarrow> False | Some x \<Rightarrow> x \<noteq> [])"

definition truthy_int :: "int option \<Rightarrow> bool" where
  "truthy_int i = (case i of None \<Rightarrow> False | Some x \<Rightarrow> x \<noteq> 0)"

subsection \<open>\<^verbatim>\<open>load_rules\<close>\<close>

text \<open>
  What \<^verbatim>\<open>yaml.safe_load\<close> gives for the rule file (lines 31 and 32).
  \<^item> \<open>Unreadable\<close>: opening or parsing the file raises.
  \<^item> \<open>NoSequence\<close>: the document is empty (\<^verbatim>\<open>None\<close>), a number or a boolean, which
    the \<^verbatim>\<open>for\<close> of line 35 cannot iterate.
  \<^item> \<open>Items\<close>: a list. An item is a mapping, or a scalar that is no string (null, a
    number, a boolean), on which \<^verbatim>\<open>'pattern' in rule\<close> raises.

  Strings and nested collections, as a document or as an item, are not rules: the loop
  would append them or their parts to the rule set as they are. They are outside the type.
\<close>

datatype 'p item = Mapping "'p rule" | Scalar

datatype 'p document = Unreadable | NoSequence | Items "'p item list"

text \<open>
  The body of the loop, lines 36 to 39, for one item: the rule that is appended, or
  \<open>None\<close> when the body raises. \<open>re_compile\<close> is
  \<^verbatim>\<open>re.compile(_, re.IGNORECASE)\<close>, \<open>None\<close> when it raises; a pattern that is no
  string makes it raise.
\<close>

definition load_item :: "(string \<Rightarrow> 'p option) \<Rightarrow> 'p item \<Rightarrow> 'p rule option" where
  "load_item re_compile i =
     (case i of
        Scalar \<Rightarrow> None
      | Mapping r \<Rightarrow>
          (case pattern r of
             Absent \<Rightarrow> Some r
           | Bound None \<Rightarrow> None
           | Bound (Some pat) \<Rightarrow>
               (case re_compile pat of
                  None \<Rightarrow> None
                | Some cp \<Rightarrow> Some (r\<lparr>compiled_pattern := Bound (Some cp)\<rparr>))))"

text \<open>
  The loop of lines 35 to 39 appends to \<^verbatim>\<open>self.rules\<close>. The one \<^verbatim>\<open>try\<close> of the
  function encloses it, so an exception ends the loop and the rules appended so far
  stay. The message is the line that the function prints.
\<close>

datatype load_message = Loaded nat | ErrorLoading

fun load_loop ::
  "(string \<Rightarrow> 'p option) \<Rightarrow> 'p item list \<Rightarrow> 'p rule list \<Rightarrow> 'p rule list \<times> load_message" where
  "load_loop re_compile [] rules = (rules, Loaded (length rules))"
| "load_loop re_compile (i # rule_defs) rules =
     (case load_item re_compile i of
        None \<Rightarrow> (rules, ErrorLoading)
      | Some r \<Rightarrow> load_loop re_compile rule_defs (rules @ [r]))"

text \<open>
  \<open>rules\<close> is \<^verbatim>\<open>self.rules\<close> before the call. An unreadable file raises before
  \<^verbatim>\<open>self.rules = []\<close> of line 34, so the rules held before the call stay; a document
  that is no sequence raises after it.
\<close>

definition load_rules ::
  "(string \<Rightarrow> 'p option) \<Rightarrow> 'p document \<Rightarrow> 'p rule list \<Rightarrow> 'p rule list \<times> load_message" where
  "load_rules re_compile file rules =
     (case file of
        Unreadable \<Rightarrow> (rules, ErrorLoading)
      | NoSequence \<Rightarrow> ([], ErrorLoading)
      | Items rule_defs \<Rightarrow> load_loop re_compile rule_defs [])"


subsection \<open>\<^verbatim>\<open>_check_rules\<close>\<close>

definition make_alert :: "packet_info \<Rightarrow> 'p rule \<Rightarrow> signature_alert" where
  "make_alert p r =
     \<lparr>sa_timestamp = timestamp p,
      sa_rule_id = dict_get (rule_id r) ''unknown'',
      sa_alert_type = SIGNATURE,
      sa_confidence = dict_get (rule_confidence r) 1,
      sa_description = dict_get (rule_description r) ''Signature match'',
      sa_src_ip = src_ip p,
      sa_dst_ip = dst_ip p,
      sa_protocol = protocol p\<rparr>"

text \<open>
  The body of the loop of lines 69 to 111 for one rule: the alert put on the queue, or
  none. A filter is applied when the rule has the key and the packet's field is true
  (lines 73, 77 and 82); it then compares the value of the key, null included, with the
  packet's field. \<open>search cp payload\<close> is the \<^verbatim>\<open>try\<close> block of lines 89 to 96 (decode
  the payload, search it), \<open>None\<close> when it raises; it raises on a
  \<^verbatim>\<open>compiled_pattern\<close> that has no \<^verbatim>\<open>search\<close>.
\<close>

definition check_rule ::
  "('p \<Rightarrow> string \<Rightarrow> bool option) \<Rightarrow> packet_info \<Rightarrow> scapy_packet \<Rightarrow> 'p rule
     \<Rightarrow> signature_alert option" where
  "check_rule search p raw r =
     (if rule_src_ip r \<noteq> Absent \<and> truthy_str (src_ip p) \<and> rule_src_ip r \<noteq> Bound (src_ip p)
        then None
      else if rule_dst_ip r \<noteq> Absent \<and> truthy_str (dst_ip p) \<and> rule_dst_ip r \<noteq> Bound (dst_ip p)
        then None
      else if rule_protocol r \<noteq> Absent \<and> truthy_int (protocol p) \<and>
              rule_protocol r \<noteq> Bound (protocol p)
        then None
      else
        case compiled_pattern r of
          Absent \<Rightarrow> Some (make_alert p r)
        | Bound cp \<Rightarrow>
            (case raw_load raw of
               None \<Rightarrow> None
             | Some payload \<Rightarrow>
                 (case cp of
                    None \<Rightarrow> None
                  | Some c \<Rightarrow>
                      (case search c payload of
                         Some True \<Rightarrow> Some (make_alert p r)
                       | _ \<Rightarrow> None))))"

text \<open>Lines 65 to 67 return at once when the packet has no raw view.\<close>

definition check_rules ::
  "('p \<Rightarrow> string \<Rightarrow> bool option) \<Rightarrow> 'p rule list \<Rightarrow> packet_info \<Rightarrow> signature_alert list" where
  "check_rules search rules p =
     (case raw_packet p of
        None \<Rightarrow> []
      | Some raw \<Rightarrow> List.map_filter (check_rule search p raw) rules)"

section \<open>Anomaly detection (\<^verbatim>\<open>MLDetectionEngine\<close>)\<close>

text \<open>
  A scikit-learn object is either constructed only or fitted; \<open>'m\<close> is what a fitted
  isolation forest holds and \<open>'s\<close> what a fitted scaler holds.
\<close>

datatype 'a estimator = Unfitted | Fitted 'a

record ('m, 's) engine =
  training_data :: "features list"
  model :: "'m estimator option"
  scaler :: "'s estimator option"
  learning_mode :: bool

record anomaly_alert =
  aa_timestamp :: datetime
  aa_flow_key :: string
  aa_alert_type :: alert_kind
  aa_confidence :: real
  aa_description :: string
  aa_features :: features

definition max_training_samples :: nat where
  "max_training_samples = 10000"

text \<open>
  \<^verbatim>\<open>__init__\<close>: \<open>loaded\<close> is the model read from \<^verbatim>\<open>model_path\<close>, if there is one;
  line 18 then sets the scaler to \<^verbatim>\<open>None\<close>.
\<close>

definition engine_init :: "'m estimator option \<Rightarrow> bool \<Rightarrow> ('m, 's) engine" where
  "engine_init loaded learning =
     \<lparr>training_data = [], model = loaded, scaler = None, learning_mode = learning\<rparr>"

text \<open>
  \<^verbatim>\<open>_train_model\<close>. \<open>fit_scaler\<close> is \<^verbatim>\<open>StandardScaler().fit_transform\<close> on the
  numeric columns of the corpus (the fitted scaler and the scaled matrix), \<open>fit_forest\<close>
  is \<^verbatim>\<open>IsolationForest(...).fit\<close>. Each object is assigned to the engine before it is
  fitted, and the \<^verbatim>\<open>try\<close> of the function catches what a fit raises. Writing the
  model to disk changes no field of the engine.
\<close>

definition train_model ::
  "(features list \<Rightarrow> ('s \<times> 'x) option) \<Rightarrow> ('x \<Rightarrow> 'm option) \<Rightarrow> ('m, 's) engine
     \<Rightarrow> ('m, 's) engine" where
  "train_model fit_scaler fit_forest eng =
     (case fit_scaler (training_data eng) of
        None \<Rightarrow> eng\<lparr>scaler := Some Unfitted\<rparr>
      | Some (s, X_scaled) \<Rightarrow>
          (case fit_forest X_scaled of
             None \<Rightarrow> eng\<lparr>scaler := Some (Fitted s), model := Some Unfitted\<rparr>
           | Some m \<Rightarrow> eng\<lparr>scaler := Some (Fitted s), model := Some (Fitted m)\<rparr>))"

text \<open>
  \<^verbatim>\<open>_detect_anomalies\<close>. \<open>predict m s batch\<close> is the prediction (\<open>-1\<close> for an
  anomaly) and the score of each row; \<open>None\<close> when scaling or predicting raises. A
  missing or unfitted scaler or model raises too, and the \<^verbatim>\<open>try\<close> of the function
  catches it: no alert.
\<close>

definition detect_anomalies ::
  "('m \<Rightarrow> 's \<Rightarrow> features list \<Rightarrow> (int \<times> real) list option) \<Rightarrow> ('m, 's) engine
     \<Rightarrow> features list \<Rightarrow> anomaly_alert list" where
  "detect_anomalies predict eng batch =
     (case (model eng, scaler eng) of
        (Some (Fitted m), Some (Fitted s)) \<Rightarrow>
          (case predict m s batch of
             None \<Rightarrow> []
           | Some results \<Rightarrow>
               map (\<lambda>(f, pred, score).
                      \<lparr>aa_timestamp = fv_timestamp f, aa_flow_key = fv_flow_key f,
                       aa_alert_type = ANOMALY, aa_confidence = \<bar>score\<bar>,
                       aa_description = ''Anomalous network flow detected'',
                       aa_features = f\<rparr>)
                   (filter (\<lambda>(f, pred, score). pred = - 1) (zip batch results)))
      | _ \<Rightarrow> [])"

text \<open>
  The body of \<^verbatim>\<open>_detection_loop\<close> for one batch taken from the feature queue
  (lines 51 to 70): the alerts put on the alert queue and the engine afterwards.
\<close>

definition detection_step ::
  "(features list \<Rightarrow> ('s \<times> 'x) option) \<Rightarrow> ('x \<Rightarrow> 'm option)
     \<Rightarrow> ('m \<Rightarrow> 's \<Rightarrow> features list \<Rightarrow> (int \<times> real) list option)
     \<Rightarrow> features list \<Rightarrow> ('m, 's) engine \<Rightarrow> anomaly_alert list \<times> ('m, 's) engine" where
  "detection_step fit_scaler fit_forest predict features_batch eng =
     (if features_batch = [] then ([], eng)
      else
        let eng' =
              (if length (training_data eng) < max_training_samples then
                 (let e = eng\<lparr>training_data := training_data eng @ features_batch\<rparr>
                  in if length (training_data e) \<ge> 1000 \<and> (model e = None \<or> learning_mode e)
                     then train_model fit_scaler fit_forest e
                     else e)
               else eng)
        in (if model eng' \<noteq> None \<and> \<not> learning_mode eng'
            then detect_anomalies predict eng' features_batch
            else [],
            eng'))"

text \<open>The loop over the batches that arrive, in order.\<close>

fun detection_loop ::
  "(features list \<Rightarrow> ('s \<times> 'x) option) \<Rightarrow> ('x \<Rightarrow> 'm option)
     \<Rightarrow> ('m \<Rightarrow> 's \<Rightarrow> features list \<Rightarrow> (int \<times> real) list option)
     \<Rightarrow> features list list \<Rightarrow> ('m, 's) engine \<Rightarrow> anomaly_alert list \<times> ('m, 's) engine" where
  "detection_loop fit_scaler fit_forest predict [] eng = ([], eng)"
| "detection_loop fit_scaler fit_forest predict (b # bs) eng =
     (case detection_step fit_scaler fit_forest predict b eng of
        (alerts, eng') \<Rightarrow>
          (case detection_loop fit_scaler fit_forest predict bs eng' of
             (alerts', eng'') \<Rightarrow> (alerts @ alerts', eng'')))"

section \<open>Invariants and fixtures used in the proofs\<close>

text \<open>
  What holds of every record in the flow table: it has seen a packet, so both times are
  set, and its counters agree with its two sequences.
\<close>

definition flow_consistent :: "flow_stats \<Rightarrow> bool" where
  "flow_consistent st \<longleftrightarrow>
     start_time st \<noteq> None \<and> last_time st \<noteq> None \<and>
     packet_count st = int (length (packet_sizes st)) \<and>
     byte_count st = sum_list (packet_sizes st) \<and>
     int (length (intervals st)) = packet_count st - 1"

text \<open>
  The scenario of three packets between \<^verbatim>\<open>10.0.0.1\<close> and \<^verbatim>\<open>10.0.0.2\<close> over protocol
  6, one second apart, of sizes 100, 150 and 120 (the second one in the other direction):
  what the worker does on each packet, then a drain 65 seconds after the last packet.
\<close>

abbreviation scenario_packet :: "datetime \<Rightarrow> string \<Rightarrow> string \<Rightarrow> int \<Rightarrow> packet_info" where
  "scenario_packet t src dst n \<equiv>
     \<lparr>timestamp = t, src_ip = Some src, dst_ip = Some dst, protocol = Some 6,
      pkt_length = n, raw_packet = None\<rparr>"

abbreviation scenario_ops :: "op list" where
  "scenario_ops \<equiv>
     [Ingest (scenario_packet 0 ''10.0.0.1'' ''10.0.0.2'' 100), Drain 0,
      Ingest (scenario_packet 1000000 ''10.0.0.2'' ''10.0.0.1'' 150), Drain 1000000,
      Ingest (scenario_packet 2000000 ''10.0.0.1'' ''10.0.0.2'' 120), Drain 2000000,
      Drain 67000000]"

abbreviation scenario_flow :: flow_stats where
  "scenario_flow \<equiv>
     \<lparr>packet_count = 3, byte_count = 370, start_time = Some 0, last_time = Some 2000000,
      intervals = [1, 1], packet_sizes = [100, 150, 120]\<rparr>"

text \<open>
  An event passes the filters of a rule as lines 73 to 84 test them: a filter whose key
  the rule does not have, or whose field is missing, empty or zero in the event, lets the
  event through; otherwise the value of the key must equal the field.
\<close>

definition passes_filters :: "'p rule \<Rightarrow> packet_info \<Rightarrow> bool" where
  "passes_filters r p \<longleftrightarrow>
     (rule_src_ip r = Absent \<or> \<not> truthy_str (src_ip p) \<or> rule_src_ip r = Bound (src_ip p)) \<and>
     (rule_dst_ip r = Absent \<or> \<not> truthy_str (dst_ip p) \<or> rule_dst_ip r = Bound (dst_ip p)) \<and>
     (rule_protocol r = Absent \<or> \<not> truthy_int (protocol p) \<or>
      rule_protocol r = Bound (protocol p))"

text \<open>A rule with no key at all, to write example rules from.\<close>

abbreviation no_keys :: "'p rule" where
  "no_keys \<equiv>
     \<lparr>rule_id = Absent, rule_description = Absent, rule_confidence = Absent,
      rule_src_ip = Absent, rule_dst_ip = Absent, rule_protocol = Absent,
      pattern = Absent, compiled_pattern = Absent\<rparr>"

text \<open>
  A compiler of patterns for the examples: it rejects the unbalanced \<^verbatim>\<open>(\<close> and returns
  every other pattern as its own compiled form.
\<close>

abbreviation example_compile :: "string \<Rightarrow> string option" where
  "example_compile \<equiv> (\<lambda>pat. if pat = ''('' then None else Some pat)"

text \<open>A feature vector to fill a corpus with.\<close>

abbreviation sample_vector :: features where
  "sample_vector \<equiv>
     \<lparr>fv_flow_key = ''10.0.0.3_10.0.0.4_17'', fv_timestamp = 4000000, fv_packet_count = 5,
      fv_byte_count = 500, duration = 4, packets_per_second = 5 / 4, bytes_per_second = 125,
      mean_packet_size = 100, std_packet_size = 0, min_packet_size = 100,
      max_packet_size = 100, mean_interval = 1, std_interval = 0\<rparr>"

section \<open>Flow-key symmetry\<close>

lemma sort_pair_commute: "sort [a, b] = sort [b, a]" for a b :: "'a::linorder"
  by (auto simp: not_le)

text \<open>
  Claim C1. The flow key does not depend on the direction of the packet: for all addresses
  \<open>a\<close> and \<open>b\<close> and every protocol, the key computed with source \<open>a\<close> and destination
  \<open>b\<close> is the key computed with source \<open>b\<close> and destination \<open>a\<close>, and so is the key
  under which a packet is filed in the flow table.
\<close>

theorem flow_key_symmetric:
  "flow_key a b proto = flow_key b a proto \<and>
   packet_flow_key (p\<lparr>src_ip := x, dst_ip := y\<rparr>) = packet_flow_key (p\<lparr>src_ip := y, dst_ip := x\<rparr>)"
proof -
  have k: "flow_key s d pr = flow_key d s pr" for s d pr
    unfolding flow_key_def by (simp only: sort_pair_commute [of s d])
  show ?thesis
    using k by (auto simp: packet_flow_key_def split: option.splits)
qed

lemma flow_key_example:
  "flow_key ''10.0.0.1'' ''10.0.0.2'' (Some 6) = ''10.0.0.1_10.0.0.2_6''"
  "flow_key ''10.0.0.2'' ''10.0.0.1'' (Some 6) = ''10.0.0.1_10.0.0.2_6''"
  by code_simp+

section \<open>Inter-arrival intervals\<close>

text \<open>
  Claim C2, as stated, fails: a packet stamped two seconds before the last-seen time of
  its flow appends the interval \<open>-2\<close>, not \<open>max 0 (-2) = 0\<close>.
\<close>

theorem interval_negative_counterexample:
  "update_flow_stats (scenario_packet 3000000 ''10.0.0.2'' ''10.0.0.1'' 60)
     [(''10.0.0.1_10.0.0.2_6'',
       \<lparr>packet_count = 1, byte_count = 100, start_time = Some 5000000,
        last_time = Some 5000000, intervals = [], packet_sizes = [100]\<rparr>)]
   = Inr [(''10.0.0.1_10.0.0.2_6'',
       \<lparr>packet_count = 2, byte_count = 160, start_time = Some 5000000,
        last_time = Some 3000000, intervals = [- 2], packet_sizes = [100, 60]\<rparr>)]"
  by (simp add: update_flow_stats_def packet_flow_key_def flow_key_example update_flow_def
      total_seconds_def)

text \<open>
  Claim C2, amended. For every flow with an existing state and every later packet of that
  flow, the update appends to the interval sequence the difference, in seconds, between
  the packet's time and the last-seen time, as it is: zero for a duplicate timestamp,
  negative for an earlier one, positive for a later one. Counts, byte count, last-seen
  time and sizes are updated with it.
\<close>

theorem interval_is_difference:
  assumes "packet_flow_key p = Some k" and "map_of tbl k = Some st"
    and "start_time st = Some t0" and "last_time st = Some lt"
  shows "update_flow_stats p tbl =
           Inr (AList.update k
                  (st\<lparr>intervals := intervals st @ [total_seconds (timestamp p - lt)],
                      packet_count := packet_count st + 1,
                      byte_count := byte_count st + pkt_length p,
                      last_time := Some (timestamp p),
                      packet_sizes := packet_sizes st @ [pkt_length p]\<rparr>) tbl) \<and>
         (timestamp p = lt \<longrightarrow> total_seconds (timestamp p - lt) = 0) \<and>
         (timestamp p < lt \<longrightarrow> total_seconds (timestamp p - lt) < 0) \<and>
         (lt < timestamp p \<longrightarrow> 0 < total_seconds (timestamp p - lt))"
  using assms
  by (simp add: update_flow_stats_def update_flow_def total_seconds_def)

theorem interval_is_difference_witness:
  "packet_flow_key (scenario_packet 5000000 ''10.0.0.2'' ''10.0.0.1'' 60)
     = Some ''10.0.0.1_10.0.0.2_6'' \<and>
   update_flow_stats (scenario_packet 5000000 ''10.0.0.2'' ''10.0.0.1'' 60)
     [(''10.0.0.1_10.0.0.2_6'',
       \<lparr>packet_count = 1, byte_count = 100, start_time = Some 5000000,
        last_time = Some 5000000, intervals = [], packet_sizes = [100]\<rparr>)]
   = Inr [(''10.0.0.1_10.0.0.2_6'',
       \<lparr>packet_count = 2, byte_count = 160, start_time = Some 5000000,
        last_time = Some 5000000, intervals = [0], packet_sizes = [100, 60]\<rparr>)]"
proof -
  have k: "packet_flow_key (scenario_packet 5000000 ''10.0.0.2'' ''10.0.0.1'' 60)
             = Some ''10.0.0.1_10.0.0.2_6''"
    by (simp add: packet_flow_key_def flow_key_example)
  show ?thesis
    using k interval_is_difference [OF k, of
        "[(''10.0.0.1_10.0.0.2_6'',
           \<lparr>packet_count = 1, byte_count = 100, start_time = Some 5000000,
            last_time = Some 5000000, intervals = [], packet_sizes = [100]\<rparr>)]"
        _ 5000000 5000000]
    by simp
qed

section \<open>The maturity gate of the drain\<close>

lemma delete_filter_fst:
  "filter (\<lambda>e. fst e \<notin> D) (AList.delete k tbl) = filter (\<lambda>e. fst e \<notin> insert k D) tbl"
  by (induction tbl) auto

lemma generate_loop_table:
  "generate_loop w now items batch tbl = (res, tbl') \<Longrightarrow>
     \<exists>D. D \<subseteq> {k. \<exists>st. (k, st) \<in> set items \<and> 5 \<le> packet_count st} \<and>
         tbl' = filter (\<lambda>e. fst e \<notin> D) tbl"
proof (induction items arbitrary: batch tbl)
  case Nil
  then show ?case by (auto intro: exI [of _ "{}"])
next
  case (Cons item items)
  obtain k stats where item: "item = (k, stats)" by (cases item)
  let ?keys = "\<lambda>xs. {k. \<exists>st. (k, st) \<in> set xs \<and> 5 \<le> packet_count st}"
  have mono: "?keys items \<subseteq> ?keys (item # items)" by auto
  consider
      (skip) "generate_loop w now items batch tbl = (res, tbl')"
    | (fail) "5 \<le> packet_count stats" "tbl' = tbl"
    | (drop) b where "5 \<le> packet_count stats"
        "generate_loop w now items b (AList.delete k tbl) = (res, tbl')"
    using Cons.prems unfolding item
    by (auto split: option.splits if_splits sum.splits)
  then show ?case
  proof cases
    case skip
    from Cons.IH [OF skip] mono show ?thesis by blast
  next
    case fail
    then show ?thesis by (auto intro: exI [of _ "{}"])
  next
    case drop
    from Cons.IH [OF drop(2)] obtain D where
      D: "D \<subseteq> ?keys items" "tbl' = filter (\<lambda>e. fst e \<notin> D) (AList.delete k tbl)"
      by blast
    have "insert k D \<subseteq> ?keys (item # items)"
      using D(1) drop(1) item by auto
    moreover have "tbl' = filter (\<lambda>e. fst e \<notin> insert k D) tbl"
      using D(2) by (simp add: delete_filter_fst)
    ultimately show ?thesis by blast
  qed
qed

lemma extract_flow_features_fields:
  "extract_flow_features k st = Inr (Some f) \<Longrightarrow>
     fv_flow_key f = k \<and> fv_packet_count f = packet_count st"
  by (auto simp: extract_flow_features_def Let_def split: if_splits option.splits sum.splits)

lemma generate_loop_batch:
  "generate_loop w now items batch tbl = (Inr batch', tbl') \<Longrightarrow> f \<in> set batch' \<Longrightarrow>
     f \<in> set batch \<or>
     (\<exists>st. (fv_flow_key f, st) \<in> set items \<and> 5 \<le> packet_count st \<and>
           fv_packet_count f = packet_count st)"
proof (induction items arbitrary: batch tbl)
  case Nil
  then show ?case by simp
next
  case (Cons item items)
  obtain k stats where item: "item = (k, stats)" by (cases item)
  consider
      (skip) "generate_loop w now items batch tbl = (Inr batch', tbl')"
    | (none) "generate_loop w now items batch (AList.delete k tbl) = (Inr batch', tbl')"
    | (emit) g where "5 \<le> packet_count stats" "extract_flow_features k stats = Inr (Some g)"
        "generate_loop w now items (batch @ [g]) (AList.delete k tbl) = (Inr batch', tbl')"
    using Cons.prems(1) unfolding item
    by (auto split: option.splits if_splits sum.splits)
  then show ?case
  proof cases
    case skip
    from Cons.IH [OF skip Cons.prems(2)] show ?thesis by auto
  next
    case none
    from Cons.IH [OF none Cons.prems(2)] show ?thesis by auto
  next
    case emit
    from Cons.IH [OF emit(3) Cons.prems(2)] extract_flow_features_fields [OF emit(2)] emit(1)
    show ?thesis unfolding item by auto
  qed
qed

text \<open>
  Claim C3. A flow of the table (a dictionary: its keys are distinct) whose packet count
  is below 5 stays in the table through \<^verbatim>\<open>_generate_features\<close>, whatever the clock
  and the window, and no feature vector of the emitted batch carries its key; every
  emitted vector has a packet count of at least 5.
\<close>

theorem maturity_gate:
  assumes "distinct (map fst tbl)" and "(k, st) \<in> set tbl" and "packet_count st < 5"
  shows "(k, st) \<in> set (snd (generate_features w now tbl)) \<and>
         (\<forall>batch. fst (generate_features w now tbl) = Inr (Some batch) \<longrightarrow>
            k \<notin> fv_flow_key ` set batch \<and> (\<forall>f \<in> set batch. 5 \<le> fv_packet_count f))"
proof -
  obtain res tbl' where loop: "generate_loop w now tbl [] tbl = (res, tbl')"
    by (cases "generate_loop w now tbl [] tbl")
  have only: "st' = st" if "(k, st') \<in> set tbl" for st'
    using assms(1,2) that by (meson eq_key_imp_eq_value)
  from generate_loop_table [OF loop] obtain D where
    D: "D \<subseteq> {k. \<exists>st. (k, st) \<in> set tbl \<and> 5 \<le> packet_count st}"
       "tbl' = filter (\<lambda>e. fst e \<notin> D) tbl"
    by blast
  have "k \<notin> D"
    using D(1) only assms(3) by auto
  with D(2) assms(2) have kept: "(k, st) \<in> set tbl'" by simp
  have tbl_eq: "snd (generate_features w now tbl) = tbl'"
    using loop by (simp add: generate_features_def split: sum.splits)
  have "k \<notin> fv_flow_key ` set batch \<and> (\<forall>f \<in> set batch. 5 \<le> fv_packet_count f)"
    if out: "fst (generate_features w now tbl) = Inr (Some batch)" for batch
  proof -
    from out loop have res: "res = Inr batch"
      by (auto simp: generate_features_def split: sum.splits if_splits)
    have *: "\<exists>st'. (fv_flow_key f, st') \<in> set tbl \<and> 5 \<le> packet_count st' \<and>
               fv_packet_count f = packet_count st'" if "f \<in> set batch" for f
      using generate_loop_batch [OF loop [unfolded res] that] by simp
    show ?thesis
    proof (intro conjI ballI)
      show "k \<notin> fv_flow_key ` set batch"
      proof
        assume "k \<in> fv_flow_key ` set batch"
        then obtain f where "f \<in> set batch" "fv_flow_key f = k" by auto
        with * obtain st' where "(k, st') \<in> set tbl" "5 \<le> packet_count st'" by blast
        with only assms(3) show False by auto
      qed
    next
      fix f assume "f \<in> set batch"
      with * show "5 \<le> fv_packet_count f" by fastforce
    qed
  qed
  with kept tbl_eq show ?thesis by simp
qed

theorem maturity_gate_witness:
  "(''10.0.0.1_10.0.0.2_6'', scenario_flow)
     \<in> set (snd (generate_features 60 67000000
                [(''10.0.0.1_10.0.0.2_6'', scenario_flow),
                 (''10.0.0.3_10.0.0.4_17'',
                  \<lparr>packet_count = 5, byte_count = 500, start_time = Some 0,
                   last_time = Some 4000000, intervals = [1, 1, 1, 1],
                   packet_sizes = [100, 100, 100, 100, 100]\<rparr>)])) \<and>
   map_sum id (map_option (map (\<lambda>f. (fv_flow_key f, fv_packet_count f))))
     (fst (generate_features 60 67000000
             [(''10.0.0.1_10.0.0.2_6'', scenario_flow),
              (''10.0.0.3_10.0.0.4_17'',
               \<lparr>packet_count = 5, byte_count = 500, start_time = Some 0,
                last_time = Some 4000000, intervals = [1, 1, 1, 1],
                packet_sizes = [100, 100, 100, 100, 100]\<rparr>)]))
     = Inr (Some [(''10.0.0.3_10.0.0.4_17'', 5)])"
  using maturity_gate [of
      "[(''10.0.0.1_10.0.0.2_6'', scenario_flow),
        (''10.0.0.3_10.0.0.4_17'',
         \<lparr>packet_count = 5, byte_count = 500, start_time = Some 0,
          last_time = Some 4000000, intervals = [1, 1, 1, 1],
          packet_sizes = [100, 100, 100, 100, 100]\<rparr>)]"
      "''10.0.0.1_10.0.0.2_6''" scenario_flow 60 67000000]
  by (simp add: generate_features_def extract_flow_features_def total_seconds_def
      np_min_def np_max_def Let_def)

section \<open>Consistency of the flow records\<close>

lemma update_flow_default_consistent:
  "update_flow p default_flow = Inr st' \<Longrightarrow> flow_consistent st'"
  by (auto simp: update_flow_def default_flow_def flow_consistent_def)

lemma update_flow_consistent:
  "flow_consistent st \<Longrightarrow> update_flow p st = Inr st' \<Longrightarrow> flow_consistent st'"
  by (auto simp: update_flow_def flow_consistent_def split: option.splits)

lemma set_update_cases:
  "e \<in> set (AList.update k v al) \<Longrightarrow> e = (k, v) \<or> e \<in> set al"
  by (induction al) (auto split: if_splits)

lemma update_flow_stats_consistent:
  assumes "\<forall>e \<in> set tbl. flow_consistent (snd e)"
    and "update_flow_stats p tbl = Inr tbl'"
  shows "\<forall>e \<in> set tbl'. flow_consistent (snd e)"
proof (cases "packet_flow_key p")
  case None
  with assms show ?thesis by (simp add: update_flow_stats_def)
next
  case (Some k)
  let ?flow = "case map_of tbl k of None \<Rightarrow> default_flow | Some f \<Rightarrow> f"
  from assms(2) Some obtain st' where
    st': "update_flow p ?flow = Inr st'" and tbl': "tbl' = AList.update k st' tbl"
    by (auto simp: update_flow_stats_def Let_def split: sum.splits)
  have "flow_consistent st'"
  proof (cases "map_of tbl k")
    case None
    with st' show ?thesis by (simp add: update_flow_default_consistent)
  next
    case (Some f)
    then have "(k, f) \<in> set tbl" by (rule map_of_SomeD)
    with assms(1) have "flow_consistent f" by force
    with st' Some show ?thesis by (simp add: update_flow_consistent)
  qed
  with assms(1) tbl' show ?thesis
    by (auto dest: set_update_cases)
qed

lemma generate_features_table:
  "\<exists>D. snd (generate_features w now tbl) = filter (\<lambda>e. fst e \<notin> D) tbl"
proof -
  obtain res tbl' where loop: "generate_loop w now tbl [] tbl = (res, tbl')"
    by (cases "generate_loop w now tbl [] tbl")
  have "snd (generate_features w now tbl) = tbl'"
    using loop by (simp add: generate_features_def split: sum.splits)
  with generate_loop_table [OF loop] show ?thesis by auto
qed

lemma apply_op_consistent:
  assumes "\<forall>e \<in> set tbl. flow_consistent (snd e)"
  shows "\<forall>e \<in> set (snd (apply_op w x tbl)). flow_consistent (snd e)"
proof (cases x)
  case (Ingest p)
  show ?thesis
  proof (cases "update_flow_stats p tbl")
    case (Inl e)
    with Ingest assms show ?thesis by simp
  next
    case (Inr tbl')
    with update_flow_stats_consistent [OF assms Inr] Ingest show ?thesis by simp
  qed
next
  case (Drain now)
  obtain D where "snd (generate_features w now tbl) = filter (\<lambda>e. fst e \<notin> D) tbl"
    using generate_features_table by blast
  moreover have "snd (apply_op w (Drain now) tbl) = snd (generate_features w now tbl)"
    by (simp split: prod.splits sum.splits)
  ultimately show ?thesis using assms Drain by simp
qed

lemma snd_run_Cons:
  "snd (run w (x # xs) tbl) = snd (run w xs (snd (apply_op w x tbl)))"
  by (simp split: prod.splits)

lemma run_consistent:
  "\<forall>e \<in> set tbl. flow_consistent (snd e) \<Longrightarrow>
   \<forall>e \<in> set (snd (run w ops tbl)). flow_consistent (snd e)"
proof (induction ops arbitrary: tbl)
  case Nil
  then show ?case by simp
next
  case (Cons x xs)
  from apply_op_consistent [OF Cons.prems]
  have "\<forall>e \<in> set (snd (apply_op w x tbl)). flow_consistent (snd e)" .
  from Cons.IH [OF this] show ?case
    by (simp only: snd_run_Cons)
qed

text \<open>The keys of the table stay distinct, as those of a dictionary are.\<close>

lemma apply_op_distinct:
  "distinct (map fst tbl) \<Longrightarrow> distinct (map fst (snd (apply_op w x tbl)))"
proof (cases x)
  case (Ingest p)
  assume "distinct (map fst tbl)"
  with Ingest show ?thesis
    by (auto simp: update_flow_stats_def Let_def distinct_update split: sum.splits option.splits)
next
  case (Drain now)
  assume d: "distinct (map fst tbl)"
  obtain D where "snd (generate_features w now tbl) = filter (\<lambda>e. fst e \<notin> D) tbl"
    using generate_features_table by blast
  moreover have "snd (apply_op w (Drain now) tbl) = snd (generate_features w now tbl)"
    by (simp split: prod.splits sum.splits)
  ultimately show ?thesis using d Drain by (simp add: distinct_map_filter)
qed

lemma run_distinct:
  "distinct (map fst tbl) \<Longrightarrow> distinct (map fst (snd (run w ops tbl)))"
proof (induction ops arbitrary: tbl)
  case Nil
  then show ?case by simp
next
  case (Cons x xs)
  from apply_op_distinct [OF Cons.prems, of w x]
  have "distinct (map fst (snd (apply_op w x tbl)))" .
  from Cons.IH [OF this] show ?case
    by (simp only: snd_run_Cons)
qed

text \<open>
  Claim C10. After any sequence of ingestions and drains from the empty table, every
  flow record of the table has a packet count equal to the number of its packet sizes, a
  byte count equal to their sum, and one interval fewer than packets.
\<close>

theorem flow_state_consistent:
  "\<forall>(k, st) \<in> set (snd (run w ops [])).
      packet_count st = int (length (packet_sizes st)) \<and>
      byte_count st = sum_list (packet_sizes st) \<and>
      int (length (intervals st)) = packet_count st - 1"
  using run_consistent [of "[]" w ops] by (auto simp: flow_consistent_def)

lemma scenario_run:
  "run 60 scenario_ops [] = ([], [(''10.0.0.1_10.0.0.2_6'', scenario_flow)])"
  by (simp add: update_flow_stats_def packet_flow_key_def flow_key_example update_flow_def
      default_flow_def total_seconds_def generate_features_def)

theorem flow_state_consistent_witness:
  "snd (run 60 scenario_ops []) = [(''10.0.0.1_10.0.0.2_6'', scenario_flow)] \<and>
   packet_count scenario_flow = int (length (packet_sizes scenario_flow)) \<and>
   byte_count scenario_flow = sum_list (packet_sizes scenario_flow) \<and>
   int (length (intervals scenario_flow)) = packet_count scenario_flow - 1"
  using flow_state_consistent [of 60 scenario_ops] scenario_run
  by simp

section \<open>The three-packet scenario\<close>

lemma scenario_features:
  "\<exists>f. extract_flow_features ''10.0.0.1_10.0.0.2_6'' scenario_flow = Inr (Some f) \<and>
        fv_packet_count f = 3 \<and> mean_packet_size f = 370 / 3 \<and> duration f = 2"
  by (simp add: extract_flow_features_def total_seconds_def np_min_def np_max_def np_mean_def)

text \<open>
  Claim C4, as stated, fails: the scenario puts no batch on the feature queue, so no
  feature vector is produced for the flow.
\<close>

theorem scenario_counterexample:
  "fst (run 60 scenario_ops []) = []"
  using scenario_run by simp

text \<open>
  Claim C4, amended. In the scenario the pipeline produces no feature vector: the flow
  has 3 packets, fewer than the 5 of the maturity gate, and stays in the table with
  packet count 3 and byte count 370 through the drain that follows the idle gap. The
  feature extractor applied to that record gives a vector with packet count 3, mean
  packet size \<open>370 / 3\<close> and duration 2 seconds.
\<close>

theorem scenario_not_emitted:
  "run 60 scenario_ops [] = ([], [(''10.0.0.1_10.0.0.2_6'', scenario_flow)]) \<and>
   (\<exists>f. extract_flow_features ''10.0.0.1_10.0.0.2_6'' scenario_flow = Inr (Some f) \<and>
        fv_packet_count f = 3 \<and> mean_packet_size f = 370 / 3 \<and> duration f = 2)"
  using scenario_run scenario_features by simp

section \<open>Rule evaluation\<close>

lemma check_rules_append:
  "check_rules search (rs1 @ rs2) p = check_rules search rs1 p @ check_rules search rs2 p"
  by (simp add: check_rules_def List.map_filter_def split: option.splits)

lemma check_rules_mid:
  "check_rules search (rs1 @ r # rs2) p =
     check_rules search rs1 p @ check_rules search [r] p @ check_rules search rs2 p"
  using check_rules_append [of search rs1 "[r] @ rs2" p] check_rules_append [of search "[r]" rs2 p]
  by simp

lemma check_rules_single:
  "check_rules search [r] p =
     (case raw_packet p of
        None \<Rightarrow> []
      | Some raw \<Rightarrow> (case check_rule search p raw r of None \<Rightarrow> [] | Some a \<Rightarrow> [a]))"
  by (simp add: check_rules_def List.map_filter_def split: option.splits)

lemma check_rule_filter_only:
  "compiled_pattern r = Absent \<Longrightarrow> passes_filters r p \<Longrightarrow>
     check_rule search p raw r = Some (make_alert p r)"
  by (auto simp: check_rule_def passes_filters_def)

lemma check_rules_fire:
  assumes "raw_packet p = Some raw" and "check_rule search p raw r = Some a"
  shows "check_rules search (rs1 @ r # rs2) p =
           check_rules search rs1 p @ [a] @ check_rules search rs2 p"
proof -
  have "check_rules search [r] p = [a]"
    using assms by (simp add: check_rules_single)
  then show ?thesis
    unfolding check_rules_mid by (simp add: check_rules_append)
qed



lemma make_alert_raw [simp]: "make_alert (p\<lparr>raw_packet := x\<rparr>) r = make_alert p r"
  by (simp add: make_alert_def)

lemma passes_filters_raw [simp]:
  "passes_filters r (p\<lparr>raw_packet := x\<rparr>) = passes_filters r p"
  by (simp add: passes_filters_def)

text \<open>
  A key bound to null is a filter that no address passes: the rule
  \<^verbatim>\<open>{id: N1, src_ip: null}\<close> does not fire on a packet from \<^verbatim>\<open>10.0.0.1\<close>.
\<close>

lemma null_address_never_matches:
  "check_rules (\<lambda>cp payload. None)
     [no_keys\<lparr>rule_id := Bound (Some ''N1''), rule_src_ip := Bound None\<rparr> :: unit rule]
     \<lparr>timestamp = 0, src_ip = Some ''10.0.0.1'', dst_ip = Some ''10.0.0.2'', protocol = Some 6,
      pkt_length = 42, raw_packet = Some \<lparr>raw_load = None\<rparr>\<rparr>
   = []"
  by (simp add: check_rules_def List.map_filter_def check_rule_def truthy_str_def)




text \<open>
  Claim C8, as stated, fails: an event without a raw packet view gets no alert from a
  filter-only rule whose filters it passes.
\<close>

theorem no_raw_packet_counterexample:
  "check_rules (\<lambda>cp payload. None)
     [no_keys\<lparr>rule_id := Bound (Some ''R2''), rule_description := Bound (Some ''any TCP''),
        rule_confidence := Bound (Some (1 / 2)), rule_protocol := Bound (Some 6)\<rparr>
        :: unit rule]
     \<lparr>timestamp = 7, src_ip = Some ''10.0.0.1'', dst_ip = Some ''10.0.0.2'', protocol = Some 6,
      pkt_length = 40, raw_packet = None\<rparr>
   = []"
  by (simp add: check_rules_def)

text \<open>
  Claim C8, amended. For every rule with no payload pattern (no \<^verbatim>\<open>compiled_pattern\<close>
  key, line 99) and every packet event that passes the rule's address and protocol
  filters (as the code tests them: \<open>passes_filters\<close>) and carries a raw packet view,
  evaluating the event against the rule set emits exactly one \<open>SIGNATURE\<close> alert for
  that rule, between the alerts of the rules before it and those of the rules after it,
  whether or not the view has a payload. For an event without a raw packet view the
  evaluation emits no alert at all.
\<close>

theorem filter_only_rule:
  assumes "compiled_pattern r = Absent" and "passes_filters r p"
  shows "(raw_packet p = None \<longrightarrow> check_rules search (rs1 @ r # rs2) p = []) \<and>
         (raw_packet p \<noteq> None \<longrightarrow>
            check_rules search (rs1 @ r # rs2) p =
              check_rules search rs1 p @ [make_alert p r] @ check_rules search rs2 p \<and>
            sa_alert_type (make_alert p r) = SIGNATURE)"
proof (intro conjI impI)
  assume "raw_packet p = None"
  then show "check_rules search (rs1 @ r # rs2) p = []"
    by (simp add: check_rules_def)
next
  assume "raw_packet p \<noteq> None"
  then obtain raw where raw: "raw_packet p = Some raw" by auto
  from check_rules_fire [OF raw check_rule_filter_only [OF assms]]
  show "check_rules search (rs1 @ r # rs2) p =
          check_rules search rs1 p @ [make_alert p r] @ check_rules search rs2 p" .
next
  show "sa_alert_type (make_alert p r) = SIGNATURE"
    by (simp add: make_alert_def)
qed

theorem filter_only_rule_witness:
  "check_rules (\<lambda>cp payload. None)
     [no_keys\<lparr>rule_id := Bound (Some ''R2''), rule_description := Bound (Some ''any TCP''),
        rule_confidence := Bound (Some (1 / 2)), rule_protocol := Bound (Some 6)\<rparr>
        :: unit rule]
     \<lparr>timestamp = 7, src_ip = Some ''10.0.0.1'', dst_ip = Some ''10.0.0.2'', protocol = Some 6,
      pkt_length = 40, raw_packet = Some \<lparr>raw_load = None\<rparr>\<rparr>
   = [\<lparr>sa_timestamp = 7, sa_rule_id = Some ''R2'', sa_alert_type = SIGNATURE,
       sa_confidence = Some (1 / 2), sa_description = Some ''any TCP'',
       sa_src_ip = Some ''10.0.0.1'', sa_dst_ip = Some ''10.0.0.2'', sa_protocol = Some 6\<rparr>]"
  using filter_only_rule [of
      "no_keys\<lparr>rule_id := Bound (Some ''R2''), rule_description := Bound (Some ''any TCP''),
         rule_confidence := Bound (Some (1 / 2)), rule_protocol := Bound (Some 6)\<rparr>
         :: unit rule"
      "\<lparr>timestamp = 7, src_ip = Some ''10.0.0.1'', dst_ip = Some ''10.0.0.2'',
        protocol = Some 6, pkt_length = 40, raw_packet = Some \<lparr>raw_load = None\<rparr>\<rparr>"
      "\<lambda>cp payload. None" "[]" "[]"]
  by (simp add: passes_filters_def check_rules_def make_alert_def dict_get_def)

section \<open>Loading rules\<close>




text \<open>
  What is malformed for the loop: a pattern bound to null and an item that is no mapping
  stop the loading as a pattern that does not compile does, and a document that is no
  sequence empties the rule set.
\<close>

lemma malformed_inputs:
  "load_rules example_compile
     (Items [Mapping (no_keys\<lparr>rule_id := Bound (Some ''NULL''), pattern := Bound None\<rparr>),
             Mapping (no_keys\<lparr>rule_id := Bound (Some ''GOOD'')\<rparr>)]) old = ([], ErrorLoading)"
  "load_rules example_compile
     (Items [Scalar, Mapping (no_keys\<lparr>rule_id := Bound (Some ''GOOD'')\<rparr>)]) old
     = ([], ErrorLoading)"
  "load_rules example_compile NoSequence old = ([], ErrorLoading)"
  by (simp_all add: load_rules_def load_item_def)




section \<open>The training corpus\<close>

lemma train_model_fields [simp]:
  "training_data (train_model fs ff e) = training_data e"
  "learning_mode (train_model fs ff e) = learning_mode e"
  by (simp_all add: train_model_def split: option.splits prod.splits)

lemma detection_step_data:
  "training_data (snd (detection_step fs ff pr b e)) =
     (if b \<noteq> [] \<and> length (training_data e) < max_training_samples
      then training_data e @ b else training_data e)"
  by (simp add: detection_step_def Let_def)

lemma snd_detection_loop_Cons:
  "snd (detection_loop fs ff pr (b # bs) e) =
     snd (detection_loop fs ff pr bs (snd (detection_step fs ff pr b e)))"
  by (simp split: prod.splits)

lemma snd_detection_loop_single:
  "snd (detection_loop fs ff pr [b] e) = snd (detection_step fs ff pr b e)"
  by (simp split: prod.splits)

lemma snd_detection_loop_append:
  "snd (detection_loop fs ff pr (bs @ bs') e) =
     snd (detection_loop fs ff pr bs' (snd (detection_loop fs ff pr bs e)))"
proof (induction bs arbitrary: e)
  case Nil
  show ?case by simp
next
  case (Cons b bs)
  show ?case
    using Cons.IH [of "snd (detection_step fs ff pr b e)"]
    by (simp only: snd_detection_loop_Cons append_Cons)
qed

lemma corpus_grows_below_capacity:
  "length (training_data e) + length (concat bs) \<le> max_training_samples \<Longrightarrow>
     training_data (snd (detection_loop fs ff pr bs e)) = training_data e @ concat bs"
proof (induction bs arbitrary: e)
  case Nil
  show ?case by simp
next
  case (Cons b bs)
  let ?e = "snd (detection_step fs ff pr b e)"
  have step: "training_data ?e = training_data e @ b"
    using Cons.prems by (cases b) (simp_all add: detection_step_data)
  with Cons.prems have "length (training_data ?e) + length (concat bs) \<le> max_training_samples"
    by simp
  from Cons.IH [OF this] step show ?case
    by (simp only: snd_detection_loop_Cons) simp
qed

text \<open>
  What does hold of the capacity: a corpus of 10,000 vectors or more never changes again,
  and one batch takes the corpus at most to 9,999 vectors plus the batch.
\<close>

lemma corpus_full_stays:
  "max_training_samples \<le> length (training_data e) \<Longrightarrow>
     training_data (snd (detection_loop fs ff pr bs e)) = training_data e"
proof (induction bs arbitrary: e)
  case Nil
  show ?case by simp
next
  case (Cons b bs)
  let ?e = "snd (detection_step fs ff pr b e)"
  have step: "training_data ?e = training_data e"
    using Cons.prems by (simp add: detection_step_data)
  with Cons.prems have "max_training_samples \<le> length (training_data ?e)" by simp
  from Cons.IH [OF this] step show ?case
    by (simp only: snd_detection_loop_Cons)
qed

lemma corpus_step_bound:
  "length (training_data (snd (detection_step fs ff pr b e)))
     \<le> max (length (training_data e)) (max_training_samples - 1 + length b)"
  by (simp add: detection_step_data max_training_samples_def)

lemma concat_replicate_single: "concat (replicate n [x]) = replicate n x"
  by (induction n) simp_all

text \<open>
  Claim C5. The corpus should never hold more than 10,000 vectors. The code tests the
  capacity once per batch and then appends the whole batch: after 9,999 batches of one
  vector, a batch of two vectors leaves 10,001 vectors in the corpus.
\<close>

theorem corpus_overshoot:
  "length (training_data (snd (detection_loop fs ff pr
      (replicate 9999 [sample_vector] @ [[sample_vector, sample_vector]])
      (engine_init None False)))) = 10001"
proof -
  let ?e = "snd (detection_loop fs ff pr (replicate 9999 [sample_vector]) (engine_init None False))"
  have "training_data ?e = replicate 9999 sample_vector"
    using corpus_grows_below_capacity [of "engine_init None False"
        "replicate 9999 [sample_vector]" fs ff pr]
    by (simp add: concat_replicate_single engine_init_def max_training_samples_def)
  then have "length (training_data (snd (detection_step fs ff pr
      [sample_vector, sample_vector] ?e))) = 10001"
    by (simp add: detection_step_data max_training_samples_def)
  then show ?thesis
    by (simp only: snd_detection_loop_append snd_detection_loop_single)
qed

section \<open>Bootstrap of the anomaly model\<close>

lemma untrained_below_threshold:
  "model e = None \<Longrightarrow> length (training_data e) + length (concat bs) \<le> 999 \<Longrightarrow>
     detection_loop fs ff pr bs e = ([], e\<lparr>training_data := training_data e @ concat bs\<rparr>)"
proof (induction bs arbitrary: e)
  case Nil
  show ?case by simp
next
  case (Cons b bs)
  let ?e = "e\<lparr>training_data := training_data e @ b\<rparr>"
  have step: "detection_step fs ff pr b e = ([], ?e)"
    using Cons.prems
    by (cases "b = []") (simp_all add: detection_step_def Let_def max_training_samples_def)
  have "model ?e = None" "length (training_data ?e) + length (concat bs) \<le> 999"
    using Cons.prems by simp_all
  from Cons.IH [OF this] step show ?case by simp
qed

lemma training_triggered:
  assumes "model e = None" and "length (training_data e) < 1000"
    and "1000 \<le> length (training_data e) + length b"
  shows "snd (detection_step fs ff pr b e) =
           train_model fs ff (e\<lparr>training_data := training_data e @ b\<rparr>)"
proof -
  have "b \<noteq> []" using assms by auto
  with assms show ?thesis
    by (simp add: detection_step_def Let_def max_training_samples_def)
qed

lemma train_model_fitted:
  "fs (training_data e) = Some (s, X) \<Longrightarrow> ff X = Some m \<Longrightarrow>
     model (train_model fs ff e) = Some (Fitted m) \<and>
     scaler (train_model fs ff e) = Some (Fitted s)"
  by (simp add: train_model_def)

text \<open>
  Claim C6. An engine without a model that has processed batches bringing its corpus to at
  most 999 vectors still has no model. The batch that brings the corpus to 1,000 vectors
  or more triggers \<^verbatim>\<open>_train_model\<close> on the whole corpus, and when the two fits of the
  library return, the engine holds the fitted model and the fitted scaler.
\<close>

theorem anomaly_bootstrap:
  assumes "model e = None"
    and "length (training_data e) + length (concat bs) \<le> 999"
  shows "model (snd (detection_loop fs ff pr bs e)) = None \<and>
         (1000 \<le> length (training_data e) + length (concat bs) + length b \<longrightarrow>
            snd (detection_loop fs ff pr (bs @ [b]) e) =
              train_model fs ff (e\<lparr>training_data := training_data e @ concat bs @ b\<rparr>) \<and>
            (\<forall>s X m. fs (training_data e @ concat bs @ b) = Some (s, X) \<and> ff X = Some m \<longrightarrow>
               model (snd (detection_loop fs ff pr (bs @ [b]) e)) = Some (Fitted m) \<and>
               scaler (snd (detection_loop fs ff pr (bs @ [b]) e)) = Some (Fitted s)))"
proof -
  let ?e = "e\<lparr>training_data := training_data e @ concat bs\<rparr>"
  have loop: "detection_loop fs ff pr bs e = ([], ?e)"
    using assms by (rule untrained_below_threshold)
  then have first: "model (snd (detection_loop fs ff pr bs e)) = None"
    using assms(1) by simp
  have second: "snd (detection_loop fs ff pr (bs @ [b]) e) =
      train_model fs ff (e\<lparr>training_data := training_data e @ concat bs @ b\<rparr>)"
    if "1000 \<le> length (training_data e) + length (concat bs) + length b"
  proof -
    have "snd (detection_step fs ff pr b ?e) =
        train_model fs ff (?e\<lparr>training_data := training_data ?e @ b\<rparr>)"
      using assms that by (intro training_triggered) simp_all
    then show ?thesis
      using loop by (simp add: snd_detection_loop_append snd_detection_loop_single)
  qed
  show ?thesis
    using first second train_model_fitted [of fs "e\<lparr>training_data := training_data e @ concat bs @ b\<rparr>" _ _ ff]
    by auto
qed

theorem anomaly_bootstrap_witness:
  "model (snd (detection_loop (\<lambda>corpus. Some ((), ())) (\<lambda>X. Some ()) (\<lambda>m s batch. None)
      (replicate 999 [sample_vector])
      (engine_init None False :: (unit, unit) engine))) = None \<and>
   model (snd (detection_loop (\<lambda>corpus. Some ((), ())) (\<lambda>X. Some ()) (\<lambda>m s batch. None)
      (replicate 999 [sample_vector] @ [[sample_vector]])
      (engine_init None False :: (unit, unit) engine))) = Some (Fitted ())"
  using anomaly_bootstrap [of "engine_init None False :: (unit, unit) engine"
      "replicate 999 [sample_vector]" "\<lambda>corpus. Some ((), ())" "\<lambda>X. Some ()"
      "\<lambda>m s batch. None" "[sample_vector]"]
  by (simp add: engine_init_def concat_replicate_single train_model_def)

end
